theory Spec2Isabelle
  imports Main "HOL-Library.Word"
begin

section \<open>The URL shortener: data model\<close>

text \<open>
  The service (\<^verbatim>\<open>urlService.js\<close>, \<^verbatim>\<open>server.js\<close>, \<^verbatim>\<open>database.js\<close>) keeps one SQL table
  \<^verbatim>\<open>urls\<close> and talks to it with one statement per \<^verbatim>\<open>await\<close>. The table is modelled as
  the list of its rows in insertion order; every operation takes the table and returns the
  new one. What the program reads from its environment is a parameter of the operation:
  the clock (\<^verbatim>\<open>new Date()\<close>, an instant in milliseconds), the code that
  \<^verbatim>\<open>shortid.generate()\<close> returns in this call, and \<^verbatim>\<open>Date.parse\<close> on strings.

  The store is taken as reliable: a statement fails only where the schema or the driver
  rejects it (primary key, date parameter that is invalid or out of range); string
  comparison in a \<^verbatim>\<open>WHERE\<close> clause is equality of the strings; a \<^verbatim>\<open>SELECT\<close> returns the
  matching rows in insertion order; a date is stored as a \<^verbatim>\<open>DATETIME\<close> holds it, in ticks of
  1/300 s; counters and strings are stored as given (the bounds of \<^verbatim>\<open>INT\<close> and of
  \<^verbatim>\<open>NVARCHAR(50)\<close> are not modelled).
  The URL check of the route (\<^verbatim>\<open>new URL\<close>) is not modelled: the operations are stated for
  every string.
\<close>

subsection \<open>JavaScript strings and values\<close>

text \<open>A JavaScript string is a sequence of UTF-16 code units.\<close>

type_synonym jsstring = "16 word list"

abbreviation js :: "string \<Rightarrow> jsstring" where
  "js s \<equiv> map of_char s"

text \<open>
  \<^verbatim>\<open>String.prototype.trim\<close> removes WhiteSpace and LineTerminator code points from both
  ends: TAB, VT, FF, SP, NBSP, ZWNBSP and the other space separators; LF, CR, LS, PS.
\<close>

definition isWhiteSpace :: "16 word \<Rightarrow> bool" where
  "isWhiteSpace c \<longleftrightarrow>
     c \<in> {0x0009, 0x000A, 0x000B, 0x000C, 0x000D, 0x0020, 0x00A0, 0x1680,
          0x2028, 0x2029, 0x202F, 0x205F, 0x3000, 0xFEFF}
     \<or> (0x2000 \<le> c \<and> c \<le> 0x200A)"

definition trim :: "jsstring \<Rightarrow> jsstring" where
  "trim s = rev (dropWhile isWhiteSpace (rev (dropWhile isWhiteSpace s)))"

text \<open>
  The values the \<^verbatim>\<open>expires_at\<close> field of a JSON body (and so the \<^verbatim>\<open>expiresAt\<close> argument)
  can hold. Numbers are the integral ones (no \<^verbatim>\<open>NaN\<close>, no fractions).
\<close>

datatype jsval = JUndefined | JNull | JBool bool | JNum int | JStr jsstring

fun truthy :: "jsval \<Rightarrow> bool" where
  "truthy JUndefined = False"
| "truthy JNull = False"
| "truthy (JBool b) = b"
| "truthy (JNum n) = (n \<noteq> 0)"
| "truthy (JStr s) = (s \<noteq> [])"


text \<open>
  A \<^verbatim>\<open>Date\<close> object holds a time value in milliseconds since the epoch, or \<^verbatim>\<open>NaN\<close>
  (Invalid Date). \<^verbatim>\<open>new Date(v)\<close>: a string goes through \<^verbatim>\<open>Date.parse\<close> (a parameter
  here, \<open>None\<close> for an unparseable string), anything else through ToNumber and TimeClip.
\<close>

datatype js_date = Date int | Invalid_Date

fun new_Date :: "(jsstring \<Rightarrow> int option) \<Rightarrow> jsval \<Rightarrow> js_date" where
  "new_Date Date_parse (JStr s) = (case Date_parse s of None \<Rightarrow> Invalid_Date | Some t \<Rightarrow> Date t)"
| "new_Date Date_parse (JNum n) = (if \<bar>n\<bar> \<le> 8640000000000000 then Date n else Invalid_Date)"
| "new_Date Date_parse (JBool b) = Date (if b then 1 else 0)"
| "new_Date Date_parse JNull = Date 0"
| "new_Date Date_parse JUndefined = Invalid_Date"

subsection \<open>The table\<close>

text \<open>
  \<^verbatim>\<open>CREATE TABLE urls (short_code NVARCHAR(50) PRIMARY KEY, original_url NVARCHAR(MAX) NOT NULL,
  click_count INT DEFAULT 0, created_at DATETIME DEFAULT GETUTCDATE(), expires_at DATETIME NULL)\<close>
\<close>

record url_row =
  short_code :: jsstring
  original_url :: jsstring
  click_count :: int
  created_at :: int
  expires_at :: "int option"

type_synonym store = "url_row list"

datatype store_failure = PrimaryKeyViolation | InvalidParameter

datatype error = NotFound | Expired int | StoreError store_failure

text \<open>\<^verbatim>\<open>SELECT TOP 1 short_code FROM urls WHERE original_url = @original_url\<close>\<close>

definition select_short_code_by_url :: "store \<Rightarrow> jsstring \<Rightarrow> jsstring list" where
  "select_short_code_by_url st url =
     map short_code (take 1 (filter (\<lambda>r. original_url r = url) st))"

text \<open>\<^verbatim>\<open>SELECT * FROM urls WHERE short_code = @short_code\<close>\<close>

definition select_by_short_code :: "store \<Rightarrow> jsstring \<Rightarrow> url_row list" where
  "select_by_short_code st code = filter (\<lambda>r. short_code r = code) st"

text \<open>
  Both dates of the \<^verbatim>\<open>INSERT\<close> are \<^verbatim>\<open>sql.DateTime\<close> parameters for \<^verbatim>\<open>DATETIME\<close> columns.
  The driver sends a date as its UTC day and the time of that day in ticks of 1/300 s,
  rounded to the nearest tick; a tick count read back is rounded to the nearest
  millisecond. So the instant \<open>4001\<close> is stored as \<open>4000\<close> and \<open>4002\<close> as \<open>4003\<close>.
\<close>

definition datetime_round :: "int \<Rightarrow> int" where
  "datetime_round t =
     (let ticks = (3 * (t mod 86400000) + 5) div 10
      in (t div 86400000) * 86400000 + (20 * ticks + 3) div 6)"

text \<open>
  The driver rejects a date whose UTC year is outside 1753..9999, and the column ends at
  9999-12-31 23:59:59.997. The bounds are 1753-01-01 and 10000-01-01 in milliseconds.
\<close>

definition datetime_valid :: "int \<Rightarrow> bool" where
  "datetime_valid t \<longleftrightarrow>
     - 6847804800000 \<le> t \<and> t < 253402300800000 \<and> datetime_round t < 253402300800000"

text \<open>
  What the column receives for a date parameter: \<^verbatim>\<open>null\<close> is \<open>NULL\<close>, an invalid or
  out-of-range date makes the request fail, any other date is stored rounded.
\<close>

definition datetime_param :: "js_date option \<Rightarrow> store_failure + int option" where
  "datetime_param d =
     (case d of
        None \<Rightarrow> Inr None
      | Some Invalid_Date \<Rightarrow> Inl InvalidParameter
      | Some (Date t) \<Rightarrow>
          if datetime_valid t then Inr (Some (datetime_round t)) else Inl InvalidParameter)"

text \<open>
  \<^verbatim>\<open>INSERT INTO urls (short_code, original_url, created_at, expires_at) VALUES (...)\<close>:
  the driver validates the two date parameters before it sends the statement, the table
  rejects a second row with the same primary key, and \<^verbatim>\<open>click_count\<close> takes its default.
\<close>

definition insert_url ::
  "store \<Rightarrow> jsstring \<Rightarrow> jsstring \<Rightarrow> int \<Rightarrow> js_date option \<Rightarrow> store_failure + store" where
  "insert_url st code url created expires =
     (if \<not> datetime_valid created then Inl InvalidParameter
      else case datetime_param expires of
        Inl err \<Rightarrow> Inl err
      | Inr expires_at' \<Rightarrow>
          if code \<in> set (map short_code st) then Inl PrimaryKeyViolation
          else Inr (st @ [\<lparr>short_code = code, original_url = url, click_count = 0,
                           created_at = datetime_round created, expires_at = expires_at'\<rparr>]))"

text \<open>\<^verbatim>\<open>UPDATE urls SET click_count = click_count + 1 WHERE short_code = @short_code\<close>\<close>

definition incrementClickCount :: "store \<Rightarrow> jsstring \<Rightarrow> store" where
  "incrementClickCount st shortCode =
     map (\<lambda>r. if short_code r = shortCode then r\<lparr>click_count := click_count r + 1\<rparr> else r) st"

section \<open>The operations of \<^verbatim>\<open>urlService.js\<close>\<close>

text \<open>
  \<^verbatim>\<open>createShortUrl\<close> awaits two statements. Its first half trims the URL and runs the
  existence check: \<open>Inl\<close> is the early return of the existing code, \<open>Inr\<close> the trimmed
  URL with which the second half goes on.
\<close>

definition createShortUrl_check :: "store \<Rightarrow> jsstring \<Rightarrow> jsstring + jsstring" where
  "createShortUrl_check st originalUrl =
     (let trimmedUrl = trim originalUrl in
      case select_short_code_by_url st trimmedUrl of
        existingShortCode # _ \<Rightarrow> Inl existingShortCode
      | [] \<Rightarrow> Inr trimmedUrl)"

text \<open>\<^verbatim>\<open>expiresAt ? new Date(expiresAt) : null\<close>\<close>

definition expires_param :: "(jsstring \<Rightarrow> int option) \<Rightarrow> jsval \<Rightarrow> js_date option" where
  "expires_param Date_parse expiresAt =
     (if truthy expiresAt then Some (new_Date Date_parse expiresAt) else None)"

text \<open>
  The second half inserts the row under the generated code; an error of the statement is
  logged and thrown again. The default parameter value turns \<^verbatim>\<open>undefined\<close> into
  \<^verbatim>\<open>null\<close>.
\<close>

definition createShortUrl_insert ::
  "(jsstring \<Rightarrow> int option) \<Rightarrow> store \<Rightarrow> int \<Rightarrow> jsstring \<Rightarrow> jsstring \<Rightarrow> jsval
     \<Rightarrow> (error + jsstring) \<times> store" where
  "createShortUrl_insert Date_parse st now shortCode trimmedUrl expiresAt0 =
     (let expiresAt = (if expiresAt0 = JUndefined then JNull else expiresAt0) in
      case insert_url st shortCode trimmedUrl now (expires_param Date_parse expiresAt) of
        Inl err \<Rightarrow> (Inl (StoreError err), st)
      | Inr st' \<Rightarrow> (Inr shortCode, st'))"

definition createShortUrl ::
  "(jsstring \<Rightarrow> int option) \<Rightarrow> store \<Rightarrow> int \<Rightarrow> jsstring \<Rightarrow> jsstring \<Rightarrow> jsval
     \<Rightarrow> (error + jsstring) \<times> store" where
  "createShortUrl Date_parse st now shortCode originalUrl expiresAt =
     (case createShortUrl_check st originalUrl of
        Inl existingShortCode \<Rightarrow> (Inr existingShortCode, st)
      | Inr trimmedUrl \<Rightarrow> createShortUrl_insert Date_parse st now shortCode trimmedUrl expiresAt)"

definition getUrlByShortCode :: "store \<Rightarrow> int \<Rightarrow> jsstring \<Rightarrow> error + url_row" where
  "getUrlByShortCode st currentTime shortCode =
     (case select_by_short_code st shortCode of
        [] \<Rightarrow> Inl NotFound
      | row # _ \<Rightarrow>
          (case expires_at row of
             None \<Rightarrow> Inr row
           | Some expiryTime \<Rightarrow>
               if currentTime > expiryTime then Inl (Expired expiryTime) else Inr row))"

definition getUrlStats :: "store \<Rightarrow> jsstring \<Rightarrow> error + url_row" where
  "getUrlStats st shortCode =
     (case select_by_short_code st shortCode of
        [] \<Rightarrow> Inl NotFound
      | row # _ \<Rightarrow> Inr row)"

section \<open>The redirect route of \<^verbatim>\<open>server.js\<close>\<close>

text \<open>
  Resolution is the body of the \<^verbatim>\<open>try\<close> block of \<^verbatim>\<open>GET /:shortCode\<close>:
  \<^verbatim>\<open>getUrlByShortCode\<close>, then \<^verbatim>\<open>incrementClickCount\<close>; a thrown error skips the increment.
\<close>

definition resolve :: "store \<Rightarrow> int \<Rightarrow> jsstring \<Rightarrow> (error + url_row) \<times> store" where
  "resolve st now shortCode =
     (case getUrlByShortCode st now shortCode of
        Inl err \<Rightarrow> (Inl err, st)
      | Inr row \<Rightarrow> (Inr row, incrementClickCount st shortCode))"

datatype response = Redirect jsstring | Gone int | NotFoundPage

definition redirect_handler :: "store \<Rightarrow> int \<Rightarrow> jsstring \<Rightarrow> response \<times> store" where
  "redirect_handler st now shortCode =
     (case resolve st now shortCode of
        (Inr row, st') \<Rightarrow> (Redirect (original_url row), st')
      | (Inl (Expired t), st') \<Rightarrow> (Gone t, st')
      | (Inl _, st') \<Rightarrow> (NotFoundPage, st'))"

text \<open>
  Two overlapping calls of \<^verbatim>\<open>createShortUrl\<close>: call A and call B each send their
  existence check before either has inserted, then each goes on with its second half.
\<close>

definition createShortUrl_interleaved ::
  "(jsstring \<Rightarrow> int option) \<Rightarrow> store
     \<Rightarrow> int \<Rightarrow> jsstring \<Rightarrow> jsstring \<Rightarrow> jsval
     \<Rightarrow> int \<Rightarrow> jsstring \<Rightarrow> jsstring \<Rightarrow> jsval
     \<Rightarrow> (error + jsstring) \<times> (error + jsstring) \<times> store" where
  "createShortUrl_interleaved Date_parse st nowA codeA urlA expiresA nowB codeB urlB expiresB =
     (let checkA = createShortUrl_check st urlA;
          checkB = createShortUrl_check st urlB;
          (resA, st1) = (case checkA of
                           Inl c \<Rightarrow> (Inr c, st)
                         | Inr t \<Rightarrow> createShortUrl_insert Date_parse st nowA codeA t expiresA);
          (resB, st2) = (case checkB of
                           Inl c \<Rightarrow> (Inr c, st1)
                         | Inr t \<Rightarrow> createShortUrl_insert Date_parse st1 nowB codeB t expiresB)
      in (resA, resB, st2))"

text \<open>
  The tables the service can build: it starts from the empty table, and only
  \<^verbatim>\<open>createShortUrl\<close> and the redirect route write to it. Calls may overlap: a call of
  \<^verbatim>\<open>createShortUrl\<close> whose existence check ran while its URL had no row (on the empty
  table, for one) can run its second half on any later table.
\<close>

inductive reachable :: "store \<Rightarrow> bool" where
  reachable_empty: "reachable []"
| reachable_create:
    "reachable st \<Longrightarrow> createShortUrl Date_parse st now g u e = (res, st') \<Longrightarrow> reachable st'"
| reachable_overlap:
    "reachable st \<Longrightarrow> createShortUrl_insert Date_parse st now g (trim u) e = (res, st')
       \<Longrightarrow> reachable st'"
| reachable_resolve:
    "reachable st \<Longrightarrow> resolve st now c = (res, st') \<Longrightarrow> reachable st'"

text \<open>The tables built by calls that run one after the other, none overlapping another.\<close>

inductive sequentially_reachable :: "store \<Rightarrow> bool" where
  sequential_empty: "sequentially_reachable []"
| sequential_create:
    "sequentially_reachable st \<Longrightarrow> createShortUrl Date_parse st now g u e = (res, st')
       \<Longrightarrow> sequentially_reachable st'"
| sequential_resolve:
    "sequentially_reachable st \<Longrightarrow> resolve st now c = (res, st')
       \<Longrightarrow> sequentially_reachable st'"

section \<open>Facts about the table and about trimming\<close>

lemma select_by_short_code_unique:
  "distinct (map short_code st) \<Longrightarrow> r \<in> set st
     \<Longrightarrow> select_by_short_code st (short_code r) = [r]"
proof (induction st)
  case Nil
  then show ?case by simp
next
  case (Cons x xs)
  show ?case
  proof (cases "x = r")
    case True
    with Cons.prems have "short_code r \<notin> short_code ` set xs"
      by simp
    then have "\<forall>y \<in> set xs. short_code y \<noteq> short_code r"
      by (metis imageI)
    then have "filter (\<lambda>y. short_code y = short_code r) xs = []"
      by (simp add: filter_empty_conv)
    with True show ?thesis
      by (simp add: select_by_short_code_def)
  next
    case False
    with Cons.prems have mem: "r \<in> set xs" and dist: "distinct (map short_code xs)"
      by auto
    from Cons.prems have "short_code x \<notin> short_code ` set xs"
      by simp
    with mem have "short_code x \<noteq> short_code r"
      by (metis imageI)
    with Cons.IH [OF dist mem] show ?thesis
      by (simp add: select_by_short_code_def)
  qed
qed

lemma select_by_short_code_absent:
  "c \<notin> set (map short_code st) \<Longrightarrow> select_by_short_code st c = []"
  by (auto simp: select_by_short_code_def filter_empty_conv)

lemma dropWhile_list_all_prefix:
  "list_all P ws \<Longrightarrow> dropWhile P (ws @ xs) = dropWhile P xs"
  by (induction ws) simp_all

lemma dropWhile_list_all:
  "list_all P xs \<Longrightarrow> dropWhile P xs = []"
  by (induction xs) simp_all

lemma trim_surrounding_whitespace:
  assumes "list_all isWhiteSpace w1" and "list_all isWhiteSpace w2"
  shows "trim (w1 @ u @ w2) = trim u"
proof -
  from assms(1) have lead:
    "dropWhile isWhiteSpace (w1 @ u @ w2) = dropWhile isWhiteSpace (u @ w2)"
    by (rule dropWhile_list_all_prefix)
  show ?thesis
  proof (cases "list_all isWhiteSpace u")
    case True
    with assms(2) have "list_all isWhiteSpace (u @ w2)"
      by simp
    then have "dropWhile isWhiteSpace (u @ w2) = []"
      by (rule dropWhile_list_all)
    with lead have "dropWhile isWhiteSpace (w1 @ u @ w2) = []"
      by (simp only:)
    then have "trim (w1 @ u @ w2) = []"
      by (simp only: trim_def rev.simps dropWhile.simps)
    moreover from True have "dropWhile isWhiteSpace u = []"
      by (rule dropWhile_list_all)
    then have "trim u = []"
      by (simp only: trim_def rev.simps dropWhile.simps)
    ultimately show ?thesis
      by simp
  next
    case False
    then obtain x where "x \<in> set u" and "\<not> isWhiteSpace x"
      by (auto simp: list_all_iff)
    then have "dropWhile isWhiteSpace (u @ w2) = dropWhile isWhiteSpace u @ w2"
      by (rule dropWhile_append1)
    with lead have "trim (w1 @ u @ w2)
        = rev (dropWhile isWhiteSpace (rev w2 @ rev (dropWhile isWhiteSpace u)))"
      by (simp add: trim_def)
    moreover from assms(2) have "list_all isWhiteSpace (rev w2)"
      by simp
    then have "dropWhile isWhiteSpace (rev w2 @ rev (dropWhile isWhiteSpace u))
            = dropWhile isWhiteSpace (rev (dropWhile isWhiteSpace u))"
      by (rule dropWhile_list_all_prefix)
    ultimately show ?thesis
      by (simp add: trim_def)
  qed
qed

lemma select_short_code_by_url_Nil:
  "select_short_code_by_url st url = [] \<longleftrightarrow> url \<notin> set (map original_url st)"
  by (auto simp: select_short_code_by_url_def filter_empty_conv take_Suc split: list.splits)

lemma filter_url_unique:
  "distinct (map original_url st) \<Longrightarrow> r \<in> set st
     \<Longrightarrow> filter (\<lambda>x. original_url x = original_url r) st = [r]"
proof (induction st)
  case Nil
  then show ?case by simp
next
  case (Cons x xs)
  show ?case
  proof (cases "x = r")
    case True
    with Cons.prems have "original_url r \<notin> original_url ` set xs"
      by simp
    then have "\<forall>y \<in> set xs. original_url y \<noteq> original_url r"
      by (metis imageI)
    then have "filter (\<lambda>y. original_url y = original_url r) xs = []"
      by (simp add: filter_empty_conv)
    with True show ?thesis
      by simp
  next
    case False
    with Cons.prems have mem: "r \<in> set xs" and dist: "distinct (map original_url xs)"
      by auto
    from Cons.prems have "original_url x \<notin> original_url ` set xs"
      by simp
    with mem have "original_url x \<noteq> original_url r"
      by (metis imageI)
    with Cons.IH [OF dist mem] show ?thesis
      by simp
  qed
qed

lemma createShortUrl_existing:
  assumes "distinct (map original_url st)" and "r \<in> set st" and "original_url r = trim u"
  shows "createShortUrl Date_parse st now g u e = (Inr (short_code r), st)"
proof -
  from assms have "filter (\<lambda>x. original_url x = trim u) st = [r]"
    using filter_url_unique [of st r] by simp
  then have "select_short_code_by_url st (trim u) = [short_code r]"
    by (simp add: select_short_code_by_url_def)
  then show ?thesis
    by (simp add: createShortUrl_def createShortUrl_check_def)
qed

lemma createShortUrl_new:
  assumes "trim u \<notin> set (map original_url st)"
  shows "createShortUrl Date_parse st now g u e = createShortUrl_insert Date_parse st now g (trim u) e"
proof -
  from assms have "select_short_code_by_url st (trim u) = []"
    by (simp add: select_short_code_by_url_Nil)
  then show ?thesis
    by (simp add: createShortUrl_def createShortUrl_check_def)
qed

lemma createShortUrl_found:
  assumes "filter (\<lambda>x. original_url x = trim u) st = r # rs"
  shows "createShortUrl Date_parse st now g u e = (Inr (short_code r), st)"
proof -
  from assms have "select_short_code_by_url st (trim u) = [short_code r]"
    by (simp add: select_short_code_by_url_def)
  then show ?thesis
    by (simp add: createShortUrl_def createShortUrl_check_def)
qed

lemma createShortUrl_insert_Inr:
  assumes "createShortUrl_insert Date_parse st now g t e = (Inr c, st1)"
  shows "c = g \<and> g \<notin> set (map short_code st)
       \<and> (\<exists>x. st1 = st @ [\<lparr>short_code = g, original_url = t, click_count = 0,
                             created_at = datetime_round now, expires_at = x\<rparr>])"
  using assms
  by (auto simp: createShortUrl_insert_def insert_url_def Let_def
      split: if_splits sum.splits)

lemma createShortUrl_insert_Inl:
  assumes "createShortUrl_insert Date_parse st now g t e = (Inl err, st1)"
  shows "st1 = st"
  using assms
  by (auto simp: createShortUrl_insert_def Let_def split: sum.splits)

lemma expires_param_default:
  "expires_param Date_parse (if e = JUndefined then JNull else e) = expires_param Date_parse e"
  by (simp add: expires_param_def)

lemma datetime_param_falsy:
  "\<not> truthy e \<Longrightarrow> datetime_param (expires_param Date_parse e) = Inr None"
  by (simp add: expires_param_def datetime_param_def)


lemma datetime_param_cases:
  "datetime_param d = Inl InvalidParameter \<or> (\<exists>x. datetime_param d = Inr x)"
  by (auto simp: datetime_param_def split: option.splits js_date.splits)

lemma createShortUrl_insert_accepted:
  assumes "g \<notin> set (map short_code st)" and "datetime_valid now"
    and "datetime_param (expires_param Date_parse e) = Inr x"
  shows "createShortUrl_insert Date_parse st now g t e =
           (Inr g, st @ [\<lparr>short_code = g, original_url = t, click_count = 0,
                           created_at = datetime_round now, expires_at = x\<rparr>])"
  using assms
  by (simp add: createShortUrl_insert_def insert_url_def Let_def expires_param_default)

lemma createShortUrl_insert_rejected:
  assumes "g \<in> set (map short_code st)" and "datetime_valid now"
    and "datetime_param (expires_param Date_parse e) = Inr x"
  shows "createShortUrl_insert Date_parse st now g t e = (Inl (StoreError PrimaryKeyViolation), st)"
  using assms
  by (simp add: createShortUrl_insert_def insert_url_def Let_def expires_param_default)

lemma createShortUrl_insert_invalid:
  assumes "\<not> datetime_valid now \<or> datetime_param (expires_param Date_parse e) = Inl InvalidParameter"
  shows "createShortUrl_insert Date_parse st now g t e = (Inl (StoreError InvalidParameter), st)"
  using assms
  by (auto simp: createShortUrl_insert_def insert_url_def Let_def expires_param_default)

lemma createShortUrl_returns:
  assumes "g \<notin> set (map short_code st)" and "datetime_valid now"
    and "datetime_param (expires_param Date_parse e) = Inr x"
  shows "\<exists>c st1. createShortUrl Date_parse st now g u e = (Inr c, st1)"
proof (cases "createShortUrl_check st u")
  case (Inl c)
  then show ?thesis
    by (simp add: createShortUrl_def)
next
  case (Inr t)
  with createShortUrl_insert_accepted [OF assms, of t] show ?thesis
    by (simp add: createShortUrl_def)
qed

lemma select_by_short_code_incrementClickCount:
  "select_by_short_code (incrementClickCount st c) c
     = map (\<lambda>r. r\<lparr>click_count := click_count r + 1\<rparr>) (select_by_short_code st c)"
  by (induction st) (simp_all add: select_by_short_code_def incrementClickCount_def)

lemma incrementClickCount_keeps_keys:
  "map short_code (incrementClickCount st c) = map short_code st"
  "map original_url (incrementClickCount st c) = map original_url st"
  by (simp_all add: incrementClickCount_def)

lemma resolve_live:
  assumes "select_by_short_code st c = [r]"
    and "\<forall>T. expires_at r = Some T \<longrightarrow> now \<le> T"
  shows "resolve st now c = (Inr r, incrementClickCount st c)"
    and "getUrlStats (incrementClickCount st c) c = Inr (r\<lparr>click_count := click_count r + 1\<rparr>)"
proof -
  from assms have "getUrlByShortCode st now c = Inr r"
    by (auto simp: getUrlByShortCode_def split: option.splits)
  then show "resolve st now c = (Inr r, incrementClickCount st c)"
    by (simp add: resolve_def)
  from assms(1) show "getUrlStats (incrementClickCount st c) c
      = Inr (r\<lparr>click_count := click_count r + 1\<rparr>)"
    by (simp add: getUrlStats_def select_by_short_code_incrementClickCount)
qed

lemma createShortUrl_keeps_invariants:
  assumes "distinct (map short_code st)" and "distinct (map original_url st)"
    and "createShortUrl Date_parse st now g u e = (res, st')"
  shows "distinct (map short_code st') \<and> distinct (map original_url st')"
proof (cases "trim u \<in> set (map original_url st)")
  case True
  then obtain r where "r \<in> set st" and "original_url r = trim u"
    by auto
  with assms(2) have "createShortUrl Date_parse st now g u e = (Inr (short_code r), st)"
    by (simp add: createShortUrl_existing)
  with assms show ?thesis
    by simp
next
  case False
  with assms(3) have ins: "createShortUrl_insert Date_parse st now g (trim u) e = (res, st')"
    by (simp add: createShortUrl_new)
  show ?thesis
  proof (cases res)
    case (Inl err)
    with ins have "st' = st"
      by (auto simp: createShortUrl_insert_def Let_def split: sum.splits)
    with assms show ?thesis
      by simp
  next
    case (Inr c)
    with ins obtain x where "g \<notin> set (map short_code st)"
      and "st' = st @ [\<lparr>short_code = g, original_url = trim u, click_count = 0,
                        created_at = datetime_round now, expires_at = x\<rparr>]"
      using createShortUrl_insert_Inr by blast
    with False assms(1,2) show ?thesis
      by auto
  qed
qed

lemma createShortUrl_insert_keeps_key:
  assumes "distinct (map short_code st)"
    and "createShortUrl_insert Date_parse st now g t e = (res, st')"
  shows "distinct (map short_code st')"
proof (cases res)
  case (Inl err)
  with assms(2) have "st' = st"
    using createShortUrl_insert_Inl by blast
  with assms(1) show ?thesis
    by simp
next
  case (Inr c)
  with assms(2) obtain x where "g \<notin> set (map short_code st)"
    and "st' = st @ [\<lparr>short_code = g, original_url = t, click_count = 0,
                      created_at = datetime_round now, expires_at = x\<rparr>]"
    using createShortUrl_insert_Inr by blast
  with assms(1) show ?thesis
    by auto
qed

lemma createShortUrl_keeps_key:
  assumes "distinct (map short_code st)"
    and "createShortUrl Date_parse st now g u e = (res, st')"
  shows "distinct (map short_code st')"
proof (cases "createShortUrl_check st u")
  case (Inl c)
  with assms show ?thesis
    by (simp add: createShortUrl_def)
next
  case (Inr t)
  with assms(2) have "createShortUrl_insert Date_parse st now g t e = (res, st')"
    by (simp add: createShortUrl_def)
  with assms(1) show ?thesis
    by (rule createShortUrl_insert_keeps_key)
qed

lemma resolve_keeps_invariants:
  assumes "distinct (map short_code st)" and "distinct (map original_url st)"
    and "resolve st now c = (res, st')"
  shows "distinct (map short_code st') \<and> distinct (map original_url st')"
proof -
  from assms(3) have "st' = st \<or> st' = incrementClickCount st c"
    by (auto simp: resolve_def split: sum.splits)
  with assms(1,2) show ?thesis
    by (auto simp: incrementClickCount_keeps_keys)
qed

text \<open>
  Every table the service builds keeps the primary key. One row per URL is kept only by
  calls that do not overlap: two overlapping calls reach a table with two rows for one
  URL.
\<close>

lemma reachable_primary_key:
  "reachable st \<Longrightarrow> distinct (map short_code st)"
proof (induction rule: reachable.induct)
  case reachable_empty
  show ?case by simp
next
  case (reachable_create st Date_parse now g u e res st')
  then show ?case
    using createShortUrl_keeps_key by blast
next
  case (reachable_overlap st Date_parse now g u e res st')
  then show ?case
    using createShortUrl_insert_keeps_key by blast
next
  case (reachable_resolve st now c res st')
  from reachable_resolve(2) have "st' = st \<or> st' = incrementClickCount st c"
    by (auto simp: resolve_def split: sum.splits)
  with reachable_resolve(3) show ?case
    by (auto simp: incrementClickCount_keeps_keys)
qed

lemma sequentially_reachable_invariants:
  "sequentially_reachable st
     \<Longrightarrow> distinct (map short_code st) \<and> distinct (map original_url st)"
proof (induction rule: sequentially_reachable.induct)
  case sequential_empty
  show ?case by simp
next
  case (sequential_create st Date_parse now g u e res st')
  then show ?case
    using createShortUrl_keeps_invariants by blast
next
  case (sequential_resolve st now c res st')
  then show ?case
    using resolve_keeps_invariants by blast
qed

lemma reachable_two_rows_for_one_url:
  "reachable
     [\<lparr>short_code = js ''A'', original_url = js ''https://example.com'', click_count = 0,
       created_at = 1000, expires_at = None\<rparr>,
      \<lparr>short_code = js ''B'', original_url = js ''https://example.com'', click_count = 0,
       created_at = 2000, expires_at = None\<rparr>]"
proof -
  have t: "trim (js ''https://example.com'') = js ''https://example.com''"
    by (simp add: trim_def isWhiteSpace_def)
  have a: "createShortUrl_insert (\<lambda>s. None) [] 1000 (js ''A'')
             (trim (js ''https://example.com'')) JNull
      = (Inr (js ''A''),
         [\<lparr>short_code = js ''A'', original_url = js ''https://example.com'', click_count = 0,
           created_at = 1000, expires_at = None\<rparr>])"
    unfolding t
    by (simp add: createShortUrl_insert_def insert_url_def expires_param_def
        datetime_param_def datetime_valid_def datetime_round_def)
  have b: "createShortUrl_insert (\<lambda>s. None)
             [\<lparr>short_code = js ''A'', original_url = js ''https://example.com'', click_count = 0,
               created_at = 1000, expires_at = None\<rparr>]
             2000 (js ''B'') (trim (js ''https://example.com'')) JNull
      = (Inr (js ''B''),
         [\<lparr>short_code = js ''A'', original_url = js ''https://example.com'', click_count = 0,
           created_at = 1000, expires_at = None\<rparr>,
          \<lparr>short_code = js ''B'', original_url = js ''https://example.com'', click_count = 0,
           created_at = 2000, expires_at = None\<rparr>])"
    unfolding t
    by (simp add: createShortUrl_insert_def insert_url_def expires_param_def
        datetime_param_def datetime_valid_def datetime_round_def)
  from reachable_empty a have "reachable
      [\<lparr>short_code = js ''A'', original_url = js ''https://example.com'', click_count = 0,
        created_at = 1000, expires_at = None\<rparr>]"
    by (rule reachable_overlap)
  from this b show ?thesis
    by (rule reachable_overlap)
qed

text \<open>claim C3: resolving an existing code whose expiration instant lies in the past fails
  with \<open>Expired\<close>, the error carries the stored instant, and the table is unchanged: no
  field of the row is touched and the click counter is not incremented. The route answers
  410 with that instant and the same table.\<close>

theorem resolve_expired_leaves_store:
  assumes "r \<in> set st" and "distinct (map short_code st)"
    and "expires_at r = Some T" and "T < now"
  shows "resolve st now (short_code r) = (Inl (Expired T), st)
       \<and> redirect_handler st now (short_code r) = (Gone T, st)"
proof -
  from assms(1,2) have sel: "select_by_short_code st (short_code r) = [r]"
    by (simp add: select_by_short_code_unique)
  with assms(3,4) have "getUrlByShortCode st now (short_code r) = Inl (Expired T)"
    by (simp add: getUrlByShortCode_def)
  then have res: "resolve st now (short_code r) = (Inl (Expired T), st)"
    by (simp add: resolve_def)
  then show ?thesis
    by (simp add: redirect_handler_def)
qed

theorem resolve_expired_leaves_store_witness:
  "resolve [\<lparr>short_code = js ''abc'', original_url = js ''https://example.com'',
             click_count = 0, created_at = 5000, expires_at = Some 4000\<rparr>] 5000 (js ''abc'')
     = (Inl (Expired 4000),
        [\<lparr>short_code = js ''abc'', original_url = js ''https://example.com'',
          click_count = 0, created_at = 5000, expires_at = Some 4000\<rparr>])"
  using resolve_expired_leaves_store
    [of "\<lparr>short_code = js ''abc'', original_url = js ''https://example.com'',
          click_count = 0, created_at = 5000, expires_at = Some 4000\<rparr>"
        "[\<lparr>short_code = js ''abc'', original_url = js ''https://example.com'',
           click_count = 0, created_at = 5000, expires_at = Some 4000\<rparr>]"
        4000 5000]
  by simp

text \<open>claim C1, as stated, fails for calls that overlap, and for the tables they leave.
  Two calls for the same URL, one with surrounding blanks, that both run their existence
  check on the empty table return the different codes \<open>A\<close> and \<open>B\<close> and leave two
  rows for the URL. On that table two further calls, run one after the other, both return
  \<open>A\<close>, and the table still holds two rows whose \<open>original_url\<close> is the trimmed
  URL, not one.\<close>

theorem createShortUrl_idempotent_counterexample:
  "createShortUrl_interleaved (\<lambda>s. None) []
     1000 (js ''A'') (js ''https://example.com'') JNull
     2000 (js ''B'') (js ''  https://example.com  '') JNull
   = (Inr (js ''A''), Inr (js ''B''),
      [\<lparr>short_code = js ''A'', original_url = js ''https://example.com'', click_count = 0,
        created_at = 1000, expires_at = None\<rparr>,
       \<lparr>short_code = js ''B'', original_url = js ''https://example.com'', click_count = 0,
        created_at = 2000, expires_at = None\<rparr>])
   \<and> createShortUrl (\<lambda>s. None)
      [\<lparr>short_code = js ''A'', original_url = js ''https://example.com'', click_count = 0,
        created_at = 1000, expires_at = None\<rparr>,
       \<lparr>short_code = js ''B'', original_url = js ''https://example.com'', click_count = 0,
        created_at = 2000, expires_at = None\<rparr>]
      3000 (js ''C'') (js ''https://example.com'') JNull
   = (Inr (js ''A''),
      [\<lparr>short_code = js ''A'', original_url = js ''https://example.com'', click_count = 0,
        created_at = 1000, expires_at = None\<rparr>,
       \<lparr>short_code = js ''B'', original_url = js ''https://example.com'', click_count = 0,
        created_at = 2000, expires_at = None\<rparr>])
   \<and> createShortUrl (\<lambda>s. None)
      [\<lparr>short_code = js ''A'', original_url = js ''https://example.com'', click_count = 0,
        created_at = 1000, expires_at = None\<rparr>,
       \<lparr>short_code = js ''B'', original_url = js ''https://example.com'', click_count = 0,
        created_at = 2000, expires_at = None\<rparr>]
      4000 (js ''D'') (js '' https://example.com '') JNull
   = (Inr (js ''A''),
      [\<lparr>short_code = js ''A'', original_url = js ''https://example.com'', click_count = 0,
        created_at = 1000, expires_at = None\<rparr>,
       \<lparr>short_code = js ''B'', original_url = js ''https://example.com'', click_count = 0,
        created_at = 2000, expires_at = None\<rparr>])
   \<and> length (filter (\<lambda>r. original_url r = trim (js ''https://example.com''))
      [\<lparr>short_code = js ''A'', original_url = js ''https://example.com'', click_count = 0,
        created_at = 1000, expires_at = None\<rparr>,
       \<lparr>short_code = js ''B'', original_url = js ''https://example.com'', click_count = 0,
        created_at = 2000, expires_at = None\<rparr>]) = 2"
  by (simp add: createShortUrl_interleaved_def createShortUrl_def createShortUrl_check_def
      createShortUrl_insert_def insert_url_def expires_param_def datetime_param_def
      datetime_valid_def datetime_round_def select_short_code_by_url_def
      trim_def isWhiteSpace_def)

text \<open>claim C1, amended: creation is idempotent by URL up to surrounding white space for
  calls that run one after the other. Take two calls whose arguments are the same \<open>u\<close>
  wrapped in white space, on any table. If the first call returns a code, the second
  call, run on the table the first one left, returns the same code and leaves the table
  as it is, whatever code the generator and whatever expiration the second call brings.
  Afterwards the rows whose \<open>original_url\<close> is the trimmed \<open>u\<close> are exactly one if
  there was at most one before the calls, and as many as there were otherwise: rows
  duplicated by overlapping calls stay.\<close>

theorem createShortUrl_idempotent:
  assumes "list_all isWhiteSpace w1" and "list_all isWhiteSpace w2"
    and "list_all isWhiteSpace w3" and "list_all isWhiteSpace w4"
    and "createShortUrl Date_parse st now1 g1 (w1 @ u @ w2) e1 = (Inr c, st1)"
  shows "createShortUrl Date_parse st1 now2 g2 (w3 @ u @ w4) e2 = (Inr c, st1)
       \<and> length (filter (\<lambda>r. original_url r = trim u) st1)
           = max 1 (length (filter (\<lambda>r. original_url r = trim u) st))"
proof -
  from assms(1,2) have t1: "trim (w1 @ u @ w2) = trim u"
    by (rule trim_surrounding_whitespace)
  from assms(3,4) have t2: "trim (w3 @ u @ w4) = trim u"
    by (rule trim_surrounding_whitespace)
  have second: "createShortUrl Date_parse tbl now2 g2 (w3 @ u @ w4) e2 = (Inr (short_code r), tbl)"
    if "filter (\<lambda>x. original_url x = trim u) tbl = r # rs" for tbl r rs
    using that createShortUrl_found [of "w3 @ u @ w4" tbl r rs] by (simp only: t2)
  show ?thesis
  proof (cases "filter (\<lambda>x. original_url x = trim u) st")
    case Nil
    then have "trim u \<notin> set (map original_url st)"
      by (auto simp: filter_empty_conv)
    with t1 assms(5) have "createShortUrl_insert Date_parse st now1 g1 (trim u) e1 = (Inr c, st1)"
      by (simp add: createShortUrl_new)
    then obtain x where c: "c = g1"
      and st1: "st1 = st @ [\<lparr>short_code = g1, original_url = trim u, click_count = 0,
                             created_at = datetime_round now1, expires_at = x\<rparr>]"
      using createShortUrl_insert_Inr by blast
    from st1 Nil have rows: "filter (\<lambda>x. original_url x = trim u) st1 =
        [\<lparr>short_code = g1, original_url = trim u, click_count = 0,
          created_at = datetime_round now1, expires_at = x\<rparr>]"
      by simp
    from second [OF rows] c have "createShortUrl Date_parse st1 now2 g2 (w3 @ u @ w4) e2
        = (Inr c, st1)"
      by simp
    with rows Nil show ?thesis
      by simp
  next
    case (Cons r rs)
    then have "filter (\<lambda>x. original_url x = trim (w1 @ u @ w2)) st = r # rs"
      by (simp only: t1)
    then have "createShortUrl Date_parse st now1 g1 (w1 @ u @ w2) e1 = (Inr (short_code r), st)"
      by (rule createShortUrl_found)
    with assms(5) have c: "c = short_code r" and st1: "st1 = st"
      by simp_all
    from second [OF Cons] c st1 have "createShortUrl Date_parse st1 now2 g2 (w3 @ u @ w4) e2
        = (Inr c, st1)"
      by simp
    with Cons st1 show ?thesis
      by simp
  qed
qed

theorem createShortUrl_idempotent_witness:
  "createShortUrl (\<lambda>s. None) [] 1000 (js ''X'') (js ''https://example.com'') JNull
     = (Inr (js ''X''),
        [\<lparr>short_code = js ''X'', original_url = js ''https://example.com'', click_count = 0,
          created_at = 1000, expires_at = None\<rparr>])
   \<and> createShortUrl (\<lambda>s. None)
        [\<lparr>short_code = js ''X'', original_url = js ''https://example.com'', click_count = 0,
          created_at = 1000, expires_at = None\<rparr>]
        2000 (js ''Y'') (js ''  https://example.com  '') (JNum 5000)
     = (Inr (js ''X''),
        [\<lparr>short_code = js ''X'', original_url = js ''https://example.com'', click_count = 0,
          created_at = 1000, expires_at = None\<rparr>])
   \<and> length (filter (\<lambda>r. original_url r = js ''https://example.com'')
        [\<lparr>short_code = js ''X'', original_url = js ''https://example.com'', click_count = 0,
          created_at = 1000, expires_at = None\<rparr>]) = 1"
proof -
  have ws: "list_all isWhiteSpace []" "list_all isWhiteSpace (js ''  '')"
    by (simp_all add: isWhiteSpace_def)
  have first: "createShortUrl (\<lambda>s. None) [] 1000 (js ''X'') ([] @ js ''https://example.com'' @ []) JNull
     = (Inr (js ''X''),
        [\<lparr>short_code = js ''X'', original_url = js ''https://example.com'', click_count = 0,
          created_at = 1000, expires_at = None\<rparr>])"
    by (simp add: createShortUrl_def createShortUrl_check_def createShortUrl_insert_def
        insert_url_def expires_param_def datetime_param_def datetime_valid_def
        datetime_round_def select_short_code_by_url_def trim_def isWhiteSpace_def)
  from createShortUrl_idempotent [OF ws(1) ws(1) ws(2) ws(2) first,
      of 2000 "js ''Y''" "JNum 5000"] first
  show ?thesis
    by (simp add: trim_def isWhiteSpace_def)
qed








text \<open>claim C2, as stated, fails at the instant \<open>T\<close> itself: the comparison is
  \<^verbatim>\<open>currentTime > expiryTime\<close>, so a row with \<open>expires_at = 4000\<close> resolved at instant
  \<open>4000\<close> is returned and its click counter goes from 0 to 1, where the claim has the
  resolution fail with \<open>Expired\<close>.\<close>

theorem resolve_at_expiry_instant_counterexample:
  "resolve [\<lparr>short_code = js ''abc'', original_url = js ''https://example.com'',
             click_count = 0, created_at = 1000, expires_at = Some 4000\<rparr>] 4000 (js ''abc'')
     = (Inr \<lparr>short_code = js ''abc'', original_url = js ''https://example.com'',
             click_count = 0, created_at = 1000, expires_at = Some 4000\<rparr>,
        [\<lparr>short_code = js ''abc'', original_url = js ''https://example.com'',
          click_count = 1, created_at = 1000, expires_at = Some 4000\<rparr>])"
  by (simp add: resolve_def getUrlByShortCode_def select_by_short_code_def
      incrementClickCount_def)

text \<open>claim C2, amended: for a row with \<open>expires_at = T\<close>, resolving its code at any
  instant up to and including \<open>T\<close> succeeds, returns the row and increments its click
  counter by one; resolving at any instant strictly after \<open>T\<close> fails with \<open>Expired\<close>
  and leaves the table, and so the counter, unchanged.\<close>

theorem resolve_expiration_boundary:
  assumes "r \<in> set st" and "distinct (map short_code st)" and "expires_at r = Some T"
  shows "(now \<le> T \<longrightarrow>
            resolve st now (short_code r) = (Inr r, incrementClickCount st (short_code r))
          \<and> getUrlStats (incrementClickCount st (short_code r)) (short_code r)
              = Inr (r\<lparr>click_count := click_count r + 1\<rparr>))
       \<and> (T < now \<longrightarrow> resolve st now (short_code r) = (Inl (Expired T), st))"
proof (intro conjI impI)
  from assms(1,2) have sel: "select_by_short_code st (short_code r) = [r]"
    by (simp add: select_by_short_code_unique)
  {
    assume "now \<le> T"
    with assms(3) have "\<forall>T'. expires_at r = Some T' \<longrightarrow> now \<le> T'"
      by simp
    with sel show "resolve st now (short_code r) = (Inr r, incrementClickCount st (short_code r))"
      and "getUrlStats (incrementClickCount st (short_code r)) (short_code r)
              = Inr (r\<lparr>click_count := click_count r + 1\<rparr>)"
      by (rule resolve_live)+
  }
  {
    assume "T < now"
    with sel assms(3) have "getUrlByShortCode st now (short_code r) = Inl (Expired T)"
      by (simp add: getUrlByShortCode_def)
    then show "resolve st now (short_code r) = (Inl (Expired T), st)"
      by (simp add: resolve_def)
  }
qed

theorem resolve_expiration_boundary_witness:
  "resolve [\<lparr>short_code = js ''abc'', original_url = js ''https://example.com'',
             click_count = 7, created_at = 1000, expires_at = Some 4000\<rparr>] 3999 (js ''abc'')
     = (Inr \<lparr>short_code = js ''abc'', original_url = js ''https://example.com'',
             click_count = 7, created_at = 1000, expires_at = Some 4000\<rparr>,
        [\<lparr>short_code = js ''abc'', original_url = js ''https://example.com'',
          click_count = 8, created_at = 1000, expires_at = Some 4000\<rparr>])
   \<and> resolve [\<lparr>short_code = js ''abc'', original_url = js ''https://example.com'',
             click_count = 7, created_at = 1000, expires_at = Some 4000\<rparr>] 4001 (js ''abc'')
     = (Inl (Expired 4000),
        [\<lparr>short_code = js ''abc'', original_url = js ''https://example.com'',
          click_count = 7, created_at = 1000, expires_at = Some 4000\<rparr>])"
  using resolve_expiration_boundary
    [of "\<lparr>short_code = js ''abc'', original_url = js ''https://example.com'',
          click_count = 7, created_at = 1000, expires_at = Some 4000\<rparr>"
        "[\<lparr>short_code = js ''abc'', original_url = js ''https://example.com'',
           click_count = 7, created_at = 1000, expires_at = Some 4000\<rparr>]"
        4000 3999]
    resolve_expiration_boundary
    [of "\<lparr>short_code = js ''abc'', original_url = js ''https://example.com'',
          click_count = 7, created_at = 1000, expires_at = Some 4000\<rparr>"
        "[\<lparr>short_code = js ''abc'', original_url = js ''https://example.com'',
           click_count = 7, created_at = 1000, expires_at = Some 4000\<rparr>]"
        4000 4001]
  by (simp add: incrementClickCount_def)

text \<open>claim C6: a code that is no key of the table (no row is ever deleted, so: a code
  that was never allocated) makes both resolution and \<^verbatim>\<open>getUrlStats\<close> fail with
  \<open>NotFound\<close>, the table unchanged. For a row of the table \<^verbatim>\<open>getUrlStats\<close> returns the
  whole row, with its current \<open>click_count\<close> and its \<open>expires_at\<close>, whatever the
  expiration instant is: the function reads no clock, and so never fails with
  \<open>NotFound\<close> or \<open>Expired\<close> for an existing code.\<close>

theorem not_found_semantics:
  "(c \<notin> set (map short_code st) \<longrightarrow>
      resolve st now c = (Inl NotFound, st) \<and> getUrlStats st c = Inl NotFound)
   \<and> (r \<in> set st \<and> distinct (map short_code st) \<longrightarrow>
      getUrlStats st (short_code r) = Inr r)"
proof (intro conjI impI)
  assume "c \<notin> set (map short_code st)"
  then have sel: "select_by_short_code st c = []"
    by (rule select_by_short_code_absent)
  then have "getUrlByShortCode st now c = Inl NotFound"
    by (simp add: getUrlByShortCode_def)
  then show "resolve st now c = (Inl NotFound, st)"
    by (simp add: resolve_def)
  from sel show "getUrlStats st c = Inl NotFound"
    by (simp add: getUrlStats_def)
next
  assume "r \<in> set st \<and> distinct (map short_code st)"
  then have "select_by_short_code st (short_code r) = [r]"
    by (simp add: select_by_short_code_unique)
  then show "getUrlStats st (short_code r) = Inr r"
    by (simp add: getUrlStats_def)
qed

theorem not_found_semantics_witness:
  "resolve [\<lparr>short_code = js ''abc'', original_url = js ''https://example.com'',
             click_count = 7, created_at = 1000, expires_at = Some 4000\<rparr>] 5000 (js ''xyz'')
     = (Inl NotFound,
        [\<lparr>short_code = js ''abc'', original_url = js ''https://example.com'',
          click_count = 7, created_at = 1000, expires_at = Some 4000\<rparr>])
   \<and> getUrlStats [\<lparr>short_code = js ''abc'', original_url = js ''https://example.com'',
             click_count = 7, created_at = 1000, expires_at = Some 4000\<rparr>] (js ''xyz'')
     = Inl NotFound
   \<and> getUrlStats [\<lparr>short_code = js ''abc'', original_url = js ''https://example.com'',
             click_count = 7, created_at = 1000, expires_at = Some 4000\<rparr>] (js ''abc'')
     = Inr \<lparr>short_code = js ''abc'', original_url = js ''https://example.com'',
             click_count = 7, created_at = 1000, expires_at = Some 4000\<rparr>"
  using not_found_semantics
    [of "js ''xyz''"
        "[\<lparr>short_code = js ''abc'', original_url = js ''https://example.com'',
           click_count = 7, created_at = 1000, expires_at = Some 4000\<rparr>]"
        5000
        "\<lparr>short_code = js ''abc'', original_url = js ''https://example.com'',
          click_count = 7, created_at = 1000, expires_at = Some 4000\<rparr>"]
  by simp

text \<open>claim C4, as stated, fails for a URL that already has a row: the call without
  \<open>expiresAt\<close> returns the code of that row and changes nothing, so the row keeps the
  expiration and the clicks it had. Here the row expired at \<open>1500\<close>; the call at
  \<open>2000\<close> returns its code \<open>X\<close>, and resolving \<open>X\<close> right away fails with
  \<open>Expired\<close>, the counter staying at 5.\<close>

theorem create_existing_then_resolve_counterexample:
  "createShortUrl (\<lambda>s. None)
     [\<lparr>short_code = js ''X'', original_url = js ''https://example.com'', click_count = 5,
       created_at = 1000, expires_at = Some 1500\<rparr>]
     2000 (js ''Y'') (js ''https://example.com'') JNull
   = (Inr (js ''X''),
      [\<lparr>short_code = js ''X'', original_url = js ''https://example.com'', click_count = 5,
        created_at = 1000, expires_at = Some 1500\<rparr>])
   \<and> resolve
     [\<lparr>short_code = js ''X'', original_url = js ''https://example.com'', click_count = 5,
       created_at = 1000, expires_at = Some 1500\<rparr>] 2000 (js ''X'')
   = (Inl (Expired 1500),
      [\<lparr>short_code = js ''X'', original_url = js ''https://example.com'', click_count = 5,
        created_at = 1000, expires_at = Some 1500\<rparr>])"
  by (simp add: createShortUrl_def createShortUrl_check_def select_short_code_by_url_def
      trim_def isWhiteSpace_def resolve_def getUrlByShortCode_def select_by_short_code_def)

text \<open>claim C4, amended: round trip for a URL that has no row yet. If
  \<^verbatim>\<open>createShortUrl\<close> is called on it without \<open>expiresAt\<close> and returns the code
  \<open>c\<close>, then resolving \<open>c\<close> afterwards, at whatever instant, returns the new row, whose
  \<open>original_url\<close> is the trimmed URL, the route redirects to the trimmed URL, and after
  that first resolution the row's \<open>click_count\<close> is 1.\<close>

theorem create_then_resolve_round_trip:
  assumes "trim u \<notin> set (map original_url st)"
    and "e = JNull \<or> e = JUndefined"
    and "createShortUrl Date_parse st now g u e = (Inr c, st1)"
  shows "resolve st1 later c =
           (Inr \<lparr>short_code = c, original_url = trim u, click_count = 0,
                 created_at = datetime_round now, expires_at = None\<rparr>,
            incrementClickCount st1 c)
       \<and> fst (redirect_handler st1 later c) = Redirect (trim u)
       \<and> getUrlStats (incrementClickCount st1 c) c =
           Inr \<lparr>short_code = c, original_url = trim u, click_count = 1,
                created_at = datetime_round now, expires_at = None\<rparr>"
proof -
  let ?row = "\<lparr>short_code = g, original_url = trim u, click_count = 0,
               created_at = datetime_round now, expires_at = None\<rparr>"
  from assms(1,3) have ins: "createShortUrl_insert Date_parse st now g (trim u) e = (Inr c, st1)"
    by (simp add: createShortUrl_new)
  then have c: "c = g" and fresh: "g \<notin> set (map short_code st)"
    using createShortUrl_insert_Inr by blast+
  from assms(2) have "\<not> truthy e"
    by auto
  then have null: "datetime_param (expires_param Date_parse e) = Inr None"
    by (rule datetime_param_falsy)
  have valid: "datetime_valid now"
  proof (rule ccontr)
    assume "\<not> datetime_valid now"
    then have "createShortUrl_insert Date_parse st now g (trim u) e
        = (Inl (StoreError InvalidParameter), st)"
      by (simp add: createShortUrl_insert_invalid)
    with ins show False
      by simp
  qed
  from fresh valid null
  have acc: "createShortUrl_insert Date_parse st now g (trim u) e = (Inr g, st @ [?row])"
    by (rule createShortUrl_insert_accepted)
  with ins have st1: "st1 = st @ [?row]"
    by auto
  from fresh have "select_by_short_code st g = []"
    by (rule select_by_short_code_absent)
  with st1 have sel: "select_by_short_code st1 g = [?row]"
    by (simp add: select_by_short_code_def)
  have live: "\<forall>T. expires_at ?row = Some T \<longrightarrow> later \<le> T"
    by simp
  from sel live have res: "resolve st1 later g = (Inr ?row, incrementClickCount st1 g)"
    by (rule resolve_live(1))
  from sel live have "getUrlStats (incrementClickCount st1 g) g
      = Inr (?row\<lparr>click_count := click_count ?row + 1\<rparr>)"
    by (rule resolve_live(2))
  with res c show ?thesis
    by (simp add: redirect_handler_def)
qed

theorem create_then_resolve_round_trip_witness:
  "createShortUrl (\<lambda>s. None) [] 1000 (js ''X'') (js '' https://example.com '') JNull
   = (Inr (js ''X''),
      [\<lparr>short_code = js ''X'', original_url = js ''https://example.com'', click_count = 0,
        created_at = 1000, expires_at = None\<rparr>])
   \<and> resolve
      [\<lparr>short_code = js ''X'', original_url = js ''https://example.com'', click_count = 0,
        created_at = 1000, expires_at = None\<rparr>] 1001 (js ''X'')
   = (Inr \<lparr>short_code = js ''X'', original_url = js ''https://example.com'', click_count = 0,
        created_at = 1000, expires_at = None\<rparr>,
      [\<lparr>short_code = js ''X'', original_url = js ''https://example.com'', click_count = 1,
        created_at = 1000, expires_at = None\<rparr>])
   \<and> getUrlStats
      [\<lparr>short_code = js ''X'', original_url = js ''https://example.com'', click_count = 1,
        created_at = 1000, expires_at = None\<rparr>] (js ''X'')
   = Inr \<lparr>short_code = js ''X'', original_url = js ''https://example.com'', click_count = 1,
        created_at = 1000, expires_at = None\<rparr>"
proof -
  have created: "createShortUrl (\<lambda>s. None) [] 1000 (js ''X'') (js '' https://example.com '') JNull
   = (Inr (js ''X''),
      [\<lparr>short_code = js ''X'', original_url = js ''https://example.com'', click_count = 0,
        created_at = 1000, expires_at = None\<rparr>])"
    by (simp add: createShortUrl_def createShortUrl_check_def createShortUrl_insert_def
        insert_url_def expires_param_def datetime_param_def datetime_valid_def
        datetime_round_def select_short_code_by_url_def trim_def isWhiteSpace_def)
  have "trim (js '' https://example.com '') \<notin> set (map original_url ([] :: store))"
    by simp
  from create_then_resolve_round_trip [OF this _ created, of 1001] created
  show ?thesis
    by (simp add: trim_def isWhiteSpace_def incrementClickCount_def datetime_round_def)
qed

text \<open>claim C8, as stated, fails: \<^verbatim>\<open>shortid.generate()\<close> is called once per call and
  the \<^verbatim>\<open>catch\<close> block logs the error and throws it again. With a generated code
  \<open>X\<close> that is already a key, the call for a new URL ends with the primary key
  violation at the first rejected insert, and nothing is inserted.\<close>

theorem createShortUrl_collision_counterexample:
  "createShortUrl (\<lambda>s. None)
     [\<lparr>short_code = js ''X'', original_url = js ''https://example.com'', click_count = 0,
       created_at = 1000, expires_at = None\<rparr>]
     2000 (js ''X'') (js ''https://example.org'') JNull
   = (Inl (StoreError PrimaryKeyViolation),
      [\<lparr>short_code = js ''X'', original_url = js ''https://example.com'', click_count = 0,
        created_at = 1000, expires_at = None\<rparr>])"
  by (simp add: createShortUrl_def createShortUrl_check_def createShortUrl_insert_def
      insert_url_def expires_param_def datetime_param_def datetime_valid_def
      datetime_round_def select_short_code_by_url_def trim_def isWhiteSpace_def)

text \<open>claim C8, amended: there is no retry. When the trimmed URL has no row, the clock and
  the expiration argument are dates the driver accepts (so that the statement reaches the
  table) and the generated code is already a key of the table, the insert is rejected
  and \<^verbatim>\<open>createShortUrl\<close> surfaces that rejection to its caller as a store error at once,
  leaving the table unchanged.\<close>

theorem createShortUrl_collision_propagates:
  assumes "trim u \<notin> set (map original_url st)" and "g \<in> set (map short_code st)"
    and "datetime_valid now"
    and "datetime_param (expires_param Date_parse e) \<noteq> Inl InvalidParameter"
  shows "createShortUrl Date_parse st now g u e = (Inl (StoreError PrimaryKeyViolation), st)"
proof -
  from assms(4) obtain x where "datetime_param (expires_param Date_parse e) = Inr x"
    using datetime_param_cases by blast
  with assms(2,3) have "createShortUrl_insert Date_parse st now g (trim u) e
      = (Inl (StoreError PrimaryKeyViolation), st)"
    by (rule createShortUrl_insert_rejected)
  with assms(1) show ?thesis
    by (simp add: createShortUrl_new)
qed

theorem createShortUrl_collision_propagates_witness:
  "createShortUrl (\<lambda>s. None)
     [\<lparr>short_code = js ''X'', original_url = js ''https://example.com'', click_count = 0,
       created_at = 1000, expires_at = None\<rparr>]
     2000 (js ''X'') (js ''https://example.net'') (JNum 7000)
   = (Inl (StoreError PrimaryKeyViolation),
      [\<lparr>short_code = js ''X'', original_url = js ''https://example.com'', click_count = 0,
        created_at = 1000, expires_at = None\<rparr>])"
  using createShortUrl_collision_propagates
    [where u = "js ''https://example.net''"
       and st = "[\<lparr>short_code = js ''X'', original_url = js ''https://example.com'',
                   click_count = 0, created_at = 1000, expires_at = None\<rparr>]"
       and g = "js ''X''" and Date_parse = "\<lambda>s. None" and e = "JNum 7000" and now = 2000]
  by (simp add: trim_def isWhiteSpace_def expires_param_def datetime_param_def
      datetime_valid_def datetime_round_def)




end
